theory Spec2Isabelle
  imports Main "HOL-Library.Sublist"
begin

section \<open>Fetching fsaverage: \<^verbatim>\<open>mne/datasets/_fsaverage/base.py\<close>\<close>

text \<open>
  The module resolves the subjects directory, records it in the user configuration and
  brings two archives (\<^verbatim>\<open>root.zip\<close>, \<^verbatim>\<open>bem.zip\<close>) up to date under it. Everything the
  Python does to the outside world is a field of the record \<open>world\<close>; every function
  that can raise returns the exception as \<open>Inl\<close> together with the world as the
  exception leaves it.
\<close>

subsection \<open>Paths (\<^verbatim>\<open>posixpath\<close>)\<close>

definition sep :: char where
  "sep = CHR ''/''"

definition isabs :: "string \<Rightarrow> bool" where
  "isabs p = (case p of [] \<Rightarrow> False | c # _ \<Rightarrow> c = sep)"

text \<open>\<^verbatim>\<open>op.join(a, b)\<close>: an absolute \<open>b\<close> replaces \<open>a\<close>; otherwise one separator joins them.\<close>

definition join :: "string \<Rightarrow> string \<Rightarrow> string" where
  "join a b =
     (if isabs b then b
      else if a = [] \<or> last a = sep then a @ b
      else a @ [sep] @ b)"

text \<open>\<^verbatim>\<open>path.split('/')\<close>: the empty string gives one empty component.\<close>

fun split_sep :: "string \<Rightarrow> string list" where
  "split_sep [] = [[]]"
| "split_sep (c # cs) =
     (if c = sep then [] # split_sep cs
      else (case split_sep cs of
              [] \<Rightarrow> [[c]]
            | w # ws \<Rightarrow> (c # w) # ws))"

text \<open>\<^verbatim>\<open>'/'.join(comps)\<close>.\<close>

fun sep_join :: "string list \<Rightarrow> string" where
  "sep_join [] = []"
| "sep_join [x] = x"
| "sep_join (x # y # ys) = x @ [sep] @ sep_join (y # ys)"

text \<open>
  \<^verbatim>\<open>normpath\<close> keeps exactly two leading slashes, and treats one, three or more as one.
\<close>

definition initial_slashes :: "string \<Rightarrow> nat" where
  "initial_slashes path =
     (if \<not> isabs path then 0
      else if take 2 path = [sep, sep] \<and> take 3 path \<noteq> [sep, sep, sep] then 2
      else 1)"

text \<open>
  The loop of \<^verbatim>\<open>normpath\<close> over the components: empty and \<^verbatim>\<open>.\<close> components are
  dropped; \<^verbatim>\<open>..\<close> pops the last component kept, is kept itself on a relative path
  with nothing to pop or after another \<^verbatim>\<open>..\<close>, and is dropped at the root.
\<close>

fun norm_comps :: "nat \<Rightarrow> string list \<Rightarrow> string list \<Rightarrow> string list" where
  "norm_comps n new_comps [] = new_comps"
| "norm_comps n new_comps (cmp # comps) =
     (if cmp = [] \<or> cmp = ''.'' then norm_comps n new_comps comps
      else if cmp \<noteq> ''..'' \<or> (n = 0 \<and> new_comps = [])
              \<or> (new_comps \<noteq> [] \<and> last new_comps = ''..'')
        then norm_comps n (new_comps @ [cmp]) comps
      else if new_comps \<noteq> [] then norm_comps n (butlast new_comps) comps
      else norm_comps n new_comps comps)"

definition normpath :: "string \<Rightarrow> string" where
  "normpath path =
     (if path = [] then ''.''
      else
        let n = initial_slashes path;
            comps = norm_comps n [] (split_sep path);
            p = replicate n sep @ sep_join comps
        in if p = [] then ''.'' else p)"

text \<open>\<^verbatim>\<open>op.abspath(path)\<close>, with the value of \<^verbatim>\<open>os.getcwd()\<close> as first argument.\<close>

definition abspath :: "string \<Rightarrow> string \<Rightarrow> string" where
  "abspath cwd path = normpath (if isabs path then path else join cwd path)"

text \<open>
  \<^verbatim>\<open>op.dirname(p)\<close>: everything up to the last separator, with the trailing
  separators stripped unless nothing else is left.
\<close>

definition dirname :: "string \<Rightarrow> string" where
  "dirname p =
     (let head = rev (dropWhile (\<lambda>c. c \<noteq> sep) (rev p))
      in if head \<noteq> [] \<and> head \<noteq> replicate (length head) sep
         then rev (dropWhile (\<lambda>c. c = sep) (rev head))
         else head)"

text \<open>
  A normalised path together with all its parent directories, the root first:
  \<open>lineage ''/a/b'' = [''/'', ''/a'', ''/a/b'']\<close>.
\<close>

definition lineage :: "string \<Rightarrow> string list" where
  "lineage k =
     filter (\<lambda>p. p \<noteq> [])
       (map (\<lambda>cs. replicate (initial_slashes k) sep @ sep_join cs)
            (prefixes (filter (\<lambda>c. c \<noteq> []) (split_sep k))))"

subsection \<open>\<^verbatim>\<open>repr\<close> of a string, as the \<^verbatim>\<open>%r\<close> conversion prints it\<close>

definition hex_digit :: "nat \<Rightarrow> char" where
  "hex_digit n = ''0123456789abcdef'' ! (n mod 16)"

text \<open>
  The quote in use and the backslash are escaped with a backslash, tab, newline and
  carriage return by their letter, the other control characters as \<^verbatim>\<open>\xhh\<close>.
  Characters are bytes here: a byte from \<open>0x80\<close> on belongs to an encoded
  non-ASCII character and is kept.
\<close>

definition repr_char :: "char \<Rightarrow> char \<Rightarrow> string" where
  "repr_char quote c =
     (if c = quote \<or> c = CHR 0x5C then [CHR 0x5C, c]
      else if c = CHR 0x09 then [CHR 0x5C, CHR ''t'']
      else if c = CHR 0x0A then [CHR 0x5C, CHR ''n'']
      else if c = CHR 0x0D then [CHR 0x5C, CHR ''r'']
      else if (of_char c :: nat) < 32 \<or> (of_char c :: nat) = 127
        then [CHR 0x5C, CHR ''x'', hex_digit (of_char c div 16), hex_digit (of_char c mod 16)]
      else [c])"

text \<open>Double quotes are used only when the string has a single quote and no double quote.\<close>

definition py_repr :: "string \<Rightarrow> string" where
  "py_repr s =
     (let quote = (if CHR 0x27 \<in> set s \<and> CHR 0x22 \<notin> set s then CHR 0x22 else CHR 0x27)
      in [quote] @ concat (map (repr_char quote) s) @ [quote])"

subsection \<open>The world and the exceptions\<close>

datatype error =
    ValueError string
  | OSError string
  | TransportFailure string
  | VerificationFailure string string
  | ExtractionFailure string

text \<open>
  \<open>config\<close> is the persisted user configuration (key to value), \<open>data_dirs\<close> the base
  data directory that the environment yields for a key, \<open>cwd\<close> the working directory.
  The file system is keyed by normalised absolute paths: \<open>dirs\<close> are the directories,
  \<open>files\<close> the regular files with their bytes. \<open>manifests\<close> are the manifest files
  bundled with the module, as their lines. \<open>remote\<close> maps a URL to the bytes it
  serves, and \<open>requests\<close> lists the URLs fetched so far.
\<close>

record world =
  config :: "string \<rightharpoonup> string"
  data_dirs :: "string \<Rightarrow> string"
  cwd :: string
  dirs :: "string set"
  files :: "string \<rightharpoonup> string"
  manifests :: "string \<rightharpoonup> string list"
  remote :: "string \<rightharpoonup> string"
  requests :: "string list"

type_synonym 'a result = "(error + 'a) \<times> world"

definition is_dir :: "world \<Rightarrow> string \<Rightarrow> bool" where
  "is_dir w p = (abspath (cwd w) p \<in> dirs w)"

definition is_file :: "world \<Rightarrow> string \<Rightarrow> bool" where
  "is_file w p = (files w (abspath (cwd w) p) \<noteq> None)"

text \<open>
  \<^verbatim>\<open>os.makedirs(p, exist_ok=True)\<close>: the directory and its missing parents are
  created; the call raises, creating nothing, when a regular file is in the way.
  Permissions are not modelled.
\<close>

definition makedirs :: "world \<Rightarrow> string \<Rightarrow> unit result" where
  "makedirs w p =
     (let k = abspath (cwd w) p
      in if \<exists>a \<in> set (lineage k). files w a \<noteq> None
         then (Inl (OSError k), w)
         else (Inr (), w\<lparr>dirs := dirs w \<union> set (lineage k)\<rparr>))"

subsection \<open>The path resolver\<close>

text \<open>
  Modelled from the spec: \<^verbatim>\<open>get_subjects_dir\<close> of \<^verbatim>\<open>mne.utils\<close> is not among the
  sources. Section 4.1, step 1: the request is resolved by the configuration lookup
  when the caller gave none, and the lookup yields \<^verbatim>\<open>None\<close> instead of raising
  (\<^verbatim>\<open>raise_error=False\<close>).
\<close>

definition get_subjects_dir :: "world \<Rightarrow> string option \<Rightarrow> string option" where
  "get_subjects_dir w subjects_dir =
     (case subjects_dir of
        None \<Rightarrow> config w ''SUBJECTS_DIR''
      | Some s \<Rightarrow> Some s)"

text \<open>
  Modelled from the spec: \<^verbatim>\<open>set_config\<close> of \<^verbatim>\<open>mne.utils\<close> is not among the sources.
  Section 6: key and string are persisted.
\<close>

definition set_config :: "world \<Rightarrow> string \<Rightarrow> string \<Rightarrow> world" where
  "set_config w key v = w\<lparr>config := (config w)(key \<mapsto> v)\<rparr>"

text \<open>
  Modelled from the spec: \<^verbatim>\<open>_get_path\<close> of \<^verbatim>\<open>mne.datasets.utils\<close> is not among the
  sources. Section 4.1, step 2: with no path given it yields the base data directory
  that the environment determines for the key.
\<close>

definition get_path :: "world \<Rightarrow> string \<Rightarrow> string" where
  "get_path w key = data_dirs w key"

definition get_create_subjects_dir :: "world \<Rightarrow> string option \<Rightarrow> string result" where
  "get_create_subjects_dir w subjects_dir =
     (case get_subjects_dir w subjects_dir of
        Some s \<Rightarrow> (Inr s, w)
      | None \<Rightarrow>
          (let s0 = get_path w ''MNE_DATA'';
               s = join s0 ''MNE-fsaverage-data''
           in case makedirs w s of
                (Inl e, w') \<Rightarrow> (Inl e, w')
              | (Inr _, w') \<Rightarrow> (Inr s, w')))"

definition mismatch_message :: "string \<Rightarrow> string \<Rightarrow> string" where
  "mismatch_message old_subjects_dir subjects_dir =
     ''The subjects dir is already set to '' @ py_repr old_subjects_dir
       @ '', which does not match the provided subjects_dir='' @ py_repr subjects_dir"

definition set_montage_coreg_path :: "world \<Rightarrow> string option \<Rightarrow> string result" where
  "set_montage_coreg_path w subjects_dir =
     (case get_create_subjects_dir w subjects_dir of
        (Inl e, w1) \<Rightarrow> (Inl e, w1)
      | (Inr s, w1) \<Rightarrow>
          (let old_subjects_dir = get_subjects_dir w1 None
           in if old_subjects_dir \<noteq> None \<and> the old_subjects_dir \<noteq> s
              then (Inl (ValueError (mismatch_message (the old_subjects_dir) s)), w1)
              else (Inr s, set_config w1 ''SUBJECTS_DIR'' s)))"

subsection \<open>The manifest synchronizer\<close>

text \<open>
  The primitives of section 6 that the synchronizer delegates to: the content hash of
  downloaded bytes, and the member of an archive with a given name (\<open>None\<close> when the
  archive has no such member).
\<close>

record prims =
  content_hash :: "string \<Rightarrow> string"
  archive_member :: "string \<Rightarrow> string \<Rightarrow> string option"

text \<open>
  Writing one extracted file: the parent directories are created, and the write
  raises when the path is a directory or a regular file is in the way of a parent.
\<close>

definition write_file :: "world \<Rightarrow> string \<Rightarrow> string \<Rightarrow> unit result" where
  "write_file w p content =
     (let k = abspath (cwd w) p
      in if k \<in> dirs w then (Inl (OSError k), w)
         else (case makedirs w (dirname k) of
                 (Inl e, w') \<Rightarrow> (Inl e, w')
               | (Inr _, w') \<Rightarrow> (Inr (), w'\<lparr>files := (files w')(k \<mapsto> content)\<rparr>)))"

text \<open>
  Modelled from the spec: the extraction primitive is not among the sources.
  Section 6: archive bytes and a list of selected entries give extracted files; section
  4.2: no partial silent success, so a selected entry that the archive lacks is a
  failure. The entries are extracted in order.
\<close>

fun extract_entries :: "prims \<Rightarrow> world \<Rightarrow> string \<Rightarrow> string \<Rightarrow> string list \<Rightarrow> unit result" where
  "extract_entries P w archive destination [] = (Inr (), w)"
| "extract_entries P w archive destination (name # names) =
     (case archive_member P archive name of
        None \<Rightarrow> (Inl (ExtractionFailure name), w)
      | Some content \<Rightarrow>
          (case write_file w (join destination name) content of
             (Inl e, w') \<Rightarrow> (Inl e, w')
           | (Inr _, w') \<Rightarrow> extract_entries P w' archive destination names))"

text \<open>
  Modelled from the spec: the download primitive is not among the sources.
  Section 6: a URL gives bytes; section 7: a transport failure is propagated. Every
  call is recorded in \<open>requests\<close>. The temporary copy of the archive is released in
  either case and leaves no trace in the world.
\<close>

definition download :: "world \<Rightarrow> string \<Rightarrow> string result" where
  "download w url =
     (let w' = w\<lparr>requests := requests w @ [url]\<rparr>
      in case remote w url of
           None \<Rightarrow> (Inl (TransportFailure url), w')
         | Some archive \<Rightarrow> (Inr archive, w'))"

text \<open>The manifest entries that are not files under the destination.\<close>

definition missing_entries :: "world \<Rightarrow> string \<Rightarrow> string list \<Rightarrow> string list" where
  "missing_entries w destination names =
     filter (\<lambda>name. \<not> is_file w (join destination name)) names"

text \<open>
  Modelled from the spec: \<^verbatim>\<open>_manifest_check_download\<close> of \<^verbatim>\<open>mne.datasets.utils\<close> is
  not among the sources. Section 4.2: read the manifest (1); when every entry exists
  under the destination, skip the descriptor without network access (2); otherwise
  download the archive and fail without extracting when its hash is not the expected
  one (3); extract only the entries that are listed and missing (4).
\<close>

definition manifest_check_download ::
  "prims \<Rightarrow> world \<Rightarrow> string \<Rightarrow> string \<Rightarrow> string \<Rightarrow> string \<Rightarrow> unit result" where
  "manifest_check_download P w destination manifest_path url hash' =
     (case manifests w manifest_path of
        None \<Rightarrow> (Inl (OSError manifest_path), w)
      | Some names \<Rightarrow>
          (let need = missing_entries w destination names
           in if need = [] then (Inr (), w)
              else (case download w url of
                      (Inl e, w1) \<Rightarrow> (Inl e, w1)
                    | (Inr archive, w1) \<Rightarrow>
                        if content_hash P archive \<noteq> hash'
                        then (Inl (VerificationFailure hash' (content_hash P archive)), w1)
                        else extract_entries P w1 archive destination need)))"

subsection \<open>\<^verbatim>\<open>fetch_fsaverage\<close>\<close>

record descriptor =
  url :: string
  hash' :: string
  manifest :: string
  destination :: string

text \<open>
  The table \<^verbatim>\<open>fsaverage_data_parts\<close>, in insertion order. Its arguments are
  \<^verbatim>\<open>FSAVERAGE_MANIFEST_PATH\<close> (the directory of the module) and the absolute subjects
  directory; \<^verbatim>\<open>op.join(subjects_dir)\<close> with one argument is \<^verbatim>\<open>subjects_dir\<close>.
\<close>

definition fsaverage_data_parts :: "string \<Rightarrow> string \<Rightarrow> (string \<times> descriptor) list" where
  "fsaverage_data_parts manifest_dir subjects_dir =
     [(''root.zip'',
       \<lparr>url = ''https://osf.io/3bxqt/download?revision=2'',
        hash' = ''5133fe92b7b8f03ae19219d5f46e4177'',
        manifest = join manifest_dir ''root.txt'',
        destination = subjects_dir\<rparr>),
      (''bem.zip'',
       \<lparr>url = ''https://osf.io/7ve8g/download?revision=2'',
        hash' = ''608c438af6a15a19b66232323088b32d'',
        manifest = join manifest_dir ''bem.txt'',
        destination = join subjects_dir ''fsaverage''\<rparr>)]"

text \<open>The loop over the table: the first exception ends it.\<close>

fun check_download_parts :: "prims \<Rightarrow> world \<Rightarrow> (string \<times> descriptor) list \<Rightarrow> unit result" where
  "check_download_parts P w [] = (Inr (), w)"
| "check_download_parts P w ((fname, data) # parts) =
     (case manifest_check_download P w (destination data) (manifest data) (url data) (hash' data) of
        (Inl e, w') \<Rightarrow> (Inl e, w')
      | (Inr _, w') \<Rightarrow> check_download_parts P w' parts)"

text \<open>
  \<^verbatim>\<open>fetch_fsaverage(subjects_dir)\<close>: the resolver, \<^verbatim>\<open>op.abspath\<close>, \<^verbatim>\<open>os.makedirs\<close> of
  the \<^verbatim>\<open>fsaverage\<close> directory, the loop over the table, and the \<^verbatim>\<open>fsaverage\<close>
  directory as result. The primitives and \<^verbatim>\<open>FSAVERAGE_MANIFEST_PATH\<close> are arguments;
  the \<^verbatim>\<open>verbose\<close> argument only sets the logging level and is left out.
\<close>

definition fetch_fsaverage :: "prims \<Rightarrow> string \<Rightarrow> world \<Rightarrow> string option \<Rightarrow> string result" where
  "fetch_fsaverage P manifest_dir w subjects_dir =
     (case set_montage_coreg_path w subjects_dir of
        (Inl e, w1) \<Rightarrow> (Inl e, w1)
      | (Inr s, w1) \<Rightarrow>
          (let s' = abspath (cwd w1) s;
               fs_dir = join s' ''fsaverage''
           in case makedirs w1 fs_dir of
                (Inl e, w2) \<Rightarrow> (Inl e, w2)
              | (Inr _, w2) \<Rightarrow>
                  (case check_download_parts P w2 (fsaverage_data_parts manifest_dir s') of
                     (Inl e, w3) \<Rightarrow> (Inl e, w3)
                   | (Inr _, w3) \<Rightarrow> (Inr fs_dir, w3))))"

subsection \<open>Concrete worlds\<close>

text \<open>A user whose configuration already names \<^verbatim>\<open>/a\<close> as subjects directory.\<close>

definition conflict_world :: world where
  "conflict_world =
     \<lparr>config = [''SUBJECTS_DIR'' \<mapsto> ''/a''],
      data_dirs = (\<lambda>_. ''/home/u/mne_data''),
      cwd = ''/home/u'',
      dirs = {''/'', ''/a''},
      files = Map.empty,
      manifests = Map.empty,
      remote = Map.empty,
      requests = []\<rparr>"

text \<open>
  Primitives for two small archives: \<^verbatim>\<open>ROOT\<close> and \<^verbatim>\<open>BEM\<close> hash to the values that
  the table of \<^verbatim>\<open>fetch_fsaverage\<close> expects, any other bytes to \<^verbatim>\<open>0\<close>.
\<close>

definition demo_prims :: prims where
  "demo_prims =
     \<lparr>content_hash = (\<lambda>a.
        if a = ''ROOT'' then ''5133fe92b7b8f03ae19219d5f46e4177''
        else if a = ''BEM'' then ''608c438af6a15a19b66232323088b32d''
        else ''0''),
      archive_member = (\<lambda>a.
        if a = ''ROOT''
          then map_of [(''fsaverage/mri/T1.mgz'', ''NEW''), (''fsaverage/surf/lh.white'', ''W'')]
        else if a = ''BEM'' then map_of [(''bem/fsaverage-head.fif'', ''H'')]
        else Map.empty)\<rparr>"

text \<open>
  A subjects directory \<^verbatim>\<open>/d\<close> that holds one of the two files of the root manifest,
  with contents of its own; nothing is configured.
\<close>

definition partial_world :: world where
  "partial_world =
     \<lparr>config = Map.empty,
      data_dirs = (\<lambda>_. ''/home/u/mne_data''),
      cwd = ''/home/u'',
      dirs = {''/'', ''/d'', ''/d/fsaverage'', ''/d/fsaverage/mri''},
      files = [''/d/fsaverage/mri/T1.mgz'' \<mapsto> ''OLD''],
      manifests = [''/m/root.txt'' \<mapsto> [''fsaverage/mri/T1.mgz'', ''fsaverage/surf/lh.white''],
                   ''/m/bem.txt'' \<mapsto> [''bem/fsaverage-head.fif'']],
      remote = [''https://osf.io/3bxqt/download?revision=2'' \<mapsto> ''ROOT'',
                ''https://osf.io/7ve8g/download?revision=2'' \<mapsto> ''BEM''],
      requests = []\<rparr>"

text \<open>The same directory after the root archive has been synchronised.\<close>

definition synced_world :: world where
  "synced_world =
     partial_world
       \<lparr>dirs := {''/'', ''/d'', ''/d/fsaverage'', ''/d/fsaverage/mri'', ''/d/fsaverage/surf''},
        files := [''/d/fsaverage/mri/T1.mgz'' \<mapsto> ''OLD'',
                  ''/d/fsaverage/surf/lh.white'' \<mapsto> ''W''],
        requests := [''https://osf.io/3bxqt/download?revision=2'']\<rparr>"

text \<open>The remote serves bytes that are not the root archive.\<close>

definition corrupt_world :: world where
  "corrupt_world =
     partial_world\<lparr>remote := [''https://osf.io/3bxqt/download?revision=2'' \<mapsto> ''JUNK'']\<rparr>"


text \<open>
  A new user: nothing is configured, nothing is on disk below the home directory, and
  the remote serves both archives.
\<close>

definition fresh_world :: world where
  "fresh_world =
     \<lparr>config = Map.empty,
      data_dirs = (\<lambda>_. ''/home/u/mne_data''),
      cwd = ''/home/u'',
      dirs = {''/'', ''/home'', ''/home/u''},
      files = Map.empty,
      manifests = [''/m/root.txt'' \<mapsto> [''fsaverage/mri/T1.mgz'', ''fsaverage/surf/lh.white''],
                   ''/m/bem.txt'' \<mapsto> [''bem/fsaverage-head.fif'']],
      remote = [''https://osf.io/3bxqt/download?revision=2'' \<mapsto> ''ROOT'',
                ''https://osf.io/7ve8g/download?revision=2'' \<mapsto> ''BEM''],
      requests = []\<rparr>"

text \<open>That world after \<^verbatim>\<open>fetch_fsaverage('data')\<close>, called from the home directory.\<close>

definition fetched_world :: world where
  "fetched_world =
     fresh_world
       \<lparr>config := [''SUBJECTS_DIR'' \<mapsto> ''data''],
        dirs := {''/'', ''/home'', ''/home/u'', ''/home/u/data'', ''/home/u/data/fsaverage'',
                 ''/home/u/data/fsaverage/mri'', ''/home/u/data/fsaverage/surf'',
                 ''/home/u/data/fsaverage/bem''},
        files := [''/home/u/data/fsaverage/mri/T1.mgz'' \<mapsto> ''NEW'',
                  ''/home/u/data/fsaverage/surf/lh.white'' \<mapsto> ''W'',
                  ''/home/u/data/fsaverage/bem/fsaverage-head.fif'' \<mapsto> ''H''],
        requests := [''https://osf.io/3bxqt/download?revision=2'',
                     ''https://osf.io/7ve8g/download?revision=2'']\<rparr>"

section \<open>Properties of the path resolver\<close>

lemmas path_defs = abspath_def normpath_def initial_slashes_def isabs_def sep_def join_def
  dirname_def lineage_def

lemma get_create_subjects_dir_persisted:
  "config w ''SUBJECTS_DIR'' = Some p \<Longrightarrow>
   get_create_subjects_dir w subjects_dir =
     (Inr (case subjects_dir of None \<Rightarrow> p | Some s \<Rightarrow> s), w)"
  by (simp add: get_create_subjects_dir_def get_subjects_dir_def split: option.splits)

lemma makedirs_cases:
  "makedirs w p = (r, w') \<Longrightarrow>
     (r = Inl (OSError (abspath (cwd w) p)) \<and> w' = w) \<or>
     (r = Inr () \<and> w' = w\<lparr>dirs := dirs w \<union> set (lineage (abspath (cwd w) p))\<rparr>)"
  by (auto simp: makedirs_def Let_def split: if_splits)

lemma get_create_subjects_dir_config:
  "get_create_subjects_dir w subjects_dir = (r, w') \<Longrightarrow> config w' = config w"
  by (auto simp: get_create_subjects_dir_def Let_def split: option.splits prod.splits sum.splits
           dest!: makedirs_cases)

text \<open>
  C1. When a subjects directory \<open>p\<close> is persisted and the directory \<open>s\<close> that the
  resolver arrives at is a different string, \<^verbatim>\<open>_set_montage_coreg_path\<close> raises a
  \<^verbatim>\<open>ValueError\<close> whose message prints both \<open>p\<close> and \<open>s\<close> (as \<^verbatim>\<open>%r\<close> does), and the
  world after the call is the world before it: nothing is written to the configuration.
\<close>

theorem conflict_raises_without_write:
  assumes "config w ''SUBJECTS_DIR'' = Some p"
    and "get_create_subjects_dir w subjects_dir = (Inr s, w1)"
    and "p \<noteq> s"
  shows "set_montage_coreg_path w subjects_dir =
           (Inl (ValueError
              (''The subjects dir is already set to '' @ py_repr p
                 @ '', which does not match the provided subjects_dir='' @ py_repr s)), w)"
proof -
  from assms(1) have "get_create_subjects_dir w subjects_dir =
      (Inr (case subjects_dir of None \<Rightarrow> p | Some s \<Rightarrow> s), w)"
    by (rule get_create_subjects_dir_persisted)
  with assms(2) have w1: "w1 = w" by simp
  show ?thesis
    using assms w1
    by (simp add: set_montage_coreg_path_def get_subjects_dir_def mismatch_message_def)
qed

theorem conflict_raises_without_write_witness:
  "config conflict_world ''SUBJECTS_DIR'' = Some ''/a'' \<and>
   get_create_subjects_dir conflict_world (Some ''/b'') = (Inr ''/b'', conflict_world) \<and>
   ''/a'' \<noteq> ''/b'' \<and>
   set_montage_coreg_path conflict_world (Some ''/b'') =
     (Inl (ValueError
        (''The subjects dir is already set to '' @ [CHR 0x27] @ ''/a'' @ [CHR 0x27]
           @ '', which does not match the provided subjects_dir='' @ [CHR 0x27] @ ''/b'' @ [CHR 0x27])),
      conflict_world)"
proof -
  have c: "config conflict_world ''SUBJECTS_DIR'' = Some ''/a''"
    by (simp add: conflict_world_def)
  have g: "get_create_subjects_dir conflict_world (Some ''/b'') = (Inr ''/b'', conflict_world)"
    by (simp add: get_create_subjects_dir_def get_subjects_dir_def)
  have n: "''/a'' \<noteq> ''/b''" by simp
  have r: "py_repr ''/a'' = [CHR 0x27] @ ''/a'' @ [CHR 0x27]"
          "py_repr ''/b'' = [CHR 0x27] @ ''/b'' @ [CHR 0x27]"
    by (simp_all add: py_repr_def repr_char_def Let_def)
  show ?thesis
    using conflict_raises_without_write [OF c g n] c g r by simp
qed

text \<open>
  C8. The conflict check compares strings: with \<open>s\<close> the directory the resolver arrives
  at, the \<^verbatim>\<open>ValueError\<close> is raised exactly when a value is persisted and is not the
  string \<open>s\<close>. The witness has the persisted \<^verbatim>\<open>/a\<close> and the request \<^verbatim>\<open>/a/\<close>, two
  spellings of one directory, and the call raises.
\<close>

theorem conflict_check_compares_raw_strings:
  assumes "get_create_subjects_dir w subjects_dir = (Inr s, w1)"
  shows "(\<exists>msg. fst (set_montage_coreg_path w subjects_dir) = Inl (ValueError msg)) \<longleftrightarrow>
         (config w ''SUBJECTS_DIR'' \<noteq> None \<and> the (config w ''SUBJECTS_DIR'') \<noteq> s)"
proof -
  have "config w1 = config w"
    using assms by (rule get_create_subjects_dir_config)
  then show ?thesis
    using assms by (auto simp: set_montage_coreg_path_def get_subjects_dir_def Let_def)
qed

theorem conflict_check_compares_raw_strings_witness:
  "get_create_subjects_dir conflict_world (Some ''/a/'') = (Inr ''/a/'', conflict_world) \<and>
   config conflict_world ''SUBJECTS_DIR'' = Some ''/a'' \<and>
   abspath (cwd conflict_world) ''/a'' = abspath (cwd conflict_world) ''/a/'' \<and>
   (\<exists>msg. fst (set_montage_coreg_path conflict_world (Some ''/a/'')) = Inl (ValueError msg))"
proof -
  have g: "get_create_subjects_dir conflict_world (Some ''/a/'') = (Inr ''/a/'', conflict_world)"
    by (simp add: get_create_subjects_dir_def get_subjects_dir_def)
  have c: "config conflict_world ''SUBJECTS_DIR'' = Some ''/a''"
    by (simp add: conflict_world_def)
  have a: "abspath (cwd conflict_world) ''/a'' = abspath (cwd conflict_world) ''/a/''"
    by (simp add: conflict_world_def abspath_def normpath_def initial_slashes_def isabs_def sep_def)
  show ?thesis
    using conflict_check_compares_raw_strings [OF g] g c a by simp
qed

section \<open>Properties of the manifest synchronizer\<close>

lemma write_file_cases:
  assumes "write_file w p c = (r, w')"
  shows "(\<exists>e. r = Inl e \<and> w' = w) \<or>
         (r = Inr () \<and> (\<exists>ds. w' = w\<lparr>dirs := dirs w \<union> ds, files := (files w)(abspath (cwd w) p \<mapsto> c)\<rparr>))"
proof (cases "abspath (cwd w) p \<in> dirs w")
  case True
  with assms show ?thesis by (auto simp: write_file_def)
next
  case False
  obtain r1 w1 where m: "makedirs w (dirname (abspath (cwd w) p)) = (r1, w1)"
    by (cases "makedirs w (dirname (abspath (cwd w) p))")
  from makedirs_cases [OF m] show ?thesis
  proof
    assume "r1 = Inl (OSError (abspath (cwd w) (dirname (abspath (cwd w) p)))) \<and> w1 = w"
    with assms False m show ?thesis by (auto simp: write_file_def Let_def)
  next
    assume "r1 = Inr () \<and>
      w1 = w\<lparr>dirs := dirs w \<union> set (lineage (abspath (cwd w) (dirname (abspath (cwd w) p))))\<rparr>"
    with assms False m show ?thesis by (auto simp: write_file_def Let_def)
  qed
qed

text \<open>What a run of the extraction loop leaves alone, and what it can only add to.\<close>

lemma extract_entries_frame:
  "extract_entries P w a D ns = (r, w') \<Longrightarrow>
     config w' = config w \<and> data_dirs w' = data_dirs w \<and> cwd w' = cwd w \<and>
     manifests w' = manifests w \<and> remote w' = remote w \<and> requests w' = requests w \<and>
     dirs w \<subseteq> dirs w' \<and> dom (files w) \<subseteq> dom (files w') \<and>
     (\<forall>k. k \<notin> (\<lambda>n. abspath (cwd w) (join D n)) ` set ns \<longrightarrow> files w' k = files w k)"
proof (induction ns arbitrary: w)
  case Nil
  then show ?case by simp
next
  case (Cons n ns)
  show ?case
  proof (cases "archive_member P a n")
    case None
    with Cons.prems show ?thesis by simp
  next
    case (Some c)
    obtain r1 w1 where wf: "write_file w (join D n) c = (r1, w1)"
      by (cases "write_file w (join D n) c")
    from write_file_cases [OF wf] show ?thesis
    proof
      assume "\<exists>e. r1 = Inl e \<and> w1 = w"
      with Cons.prems Some wf show ?thesis by auto
    next
      assume ok: "r1 = Inr () \<and> (\<exists>ds. w1 =
        w\<lparr>dirs := dirs w \<union> ds, files := (files w)(abspath (cwd w) (join D n) \<mapsto> c)\<rparr>)"
      then obtain ds where w1: "w1 =
        w\<lparr>dirs := dirs w \<union> ds, files := (files w)(abspath (cwd w) (join D n) \<mapsto> c)\<rparr>"
        by blast
      from Cons.prems Some wf ok have rest: "extract_entries P w1 a D ns = (r, w')"
        by simp
      note ih = Cons.IH [OF rest]
      have d: "dom (files w) \<subseteq> dom (files w1)" and c: "cwd w1 = cwd w"
        using w1 by auto
      have "dom (files w) \<subseteq> dom (files w')"
        using d ih by blast
      moreover have "\<forall>k. k \<notin> (\<lambda>n. abspath (cwd w) (join D n)) ` set (n # ns)
                       \<longrightarrow> files w' k = files w k"
      proof (intro allI impI)
        fix k assume k: "k \<notin> (\<lambda>n. abspath (cwd w) (join D n)) ` set (n # ns)"
        then have "k \<notin> (\<lambda>n. abspath (cwd w1) (join D n)) ` set ns"
          and kn: "k \<noteq> abspath (cwd w) (join D n)"
          using c by auto
        with ih have "files w' k = files w1 k" by blast
        with kn w1 show "files w' k = files w k" by simp
      qed
      moreover have "dirs w \<subseteq> dirs w'"
        using ih w1 by auto
      ultimately show ?thesis
        using ih w1 by simp
    qed
  qed
qed

lemma extract_entries_written:
  "extract_entries P w a D ns = (Inr (), w') \<Longrightarrow> \<forall>n \<in> set ns. is_file w' (join D n)"
proof (induction ns arbitrary: w)
  case Nil
  then show ?case by simp
next
  case (Cons n ns)
  show ?case
  proof (cases "archive_member P a n")
    case None
    with Cons.prems show ?thesis by simp
  next
    case (Some c)
    obtain r1 w1 where wf: "write_file w (join D n) c = (r1, w1)"
      by (cases "write_file w (join D n) c")
    from write_file_cases [OF wf] show ?thesis
    proof
      assume "\<exists>e. r1 = Inl e \<and> w1 = w"
      with Cons.prems Some wf show ?thesis by auto
    next
      assume ok: "r1 = Inr () \<and> (\<exists>ds. w1 =
        w\<lparr>dirs := dirs w \<union> ds, files := (files w)(abspath (cwd w) (join D n) \<mapsto> c)\<rparr>)"
      then obtain ds where w1: "w1 =
        w\<lparr>dirs := dirs w \<union> ds, files := (files w)(abspath (cwd w) (join D n) \<mapsto> c)\<rparr>"
        by blast
      from Cons.prems Some wf ok have rest: "extract_entries P w1 a D ns = (Inr (), w')"
        by simp
      have tail: "\<forall>m \<in> set ns. is_file w' (join D m)"
        using Cons.IH [OF rest] .
      from extract_entries_frame [OF rest]
      have "cwd w' = cwd w1" and "dom (files w1) \<subseteq> dom (files w')" by simp_all
      with w1 have "is_file w' (join D n)"
        by (auto simp: is_file_def)
      with tail show ?thesis by simp
    qed
  qed
qed

lemma missing_entries_eq_Nil:
  "missing_entries w D names = [] \<longleftrightarrow> (\<forall>n \<in> set names. is_file w (join D n))"
  by (auto simp: missing_entries_def filter_empty_conv)

text \<open>A successful run that found something missing went through download, check and extraction.\<close>

lemma manifest_check_download_success:
  assumes "manifests w mp = Some M"
    and "missing_entries w D M \<noteq> []"
    and "manifest_check_download P w D mp u h = (Inr (), w')"
  shows "\<exists>a. remote w u = Some a \<and> content_hash P a = h \<and>
             extract_entries P (w\<lparr>requests := requests w @ [u]\<rparr>) a D (missing_entries w D M) = (Inr (), w')"
  using assms
  by (auto simp: manifest_check_download_def download_def Let_def split: option.splits if_splits)

text \<open>
  C2. A manifest \<open>M\<close> has an entry missing under the destination \<open>D\<close>. After a
  successful run of the synchronizer every entry of \<open>M\<close> is a file under \<open>D\<close>, and
  every file that existed before the run, listed or not, under \<open>D\<close> or elsewhere, has
  the bytes it had: nothing is overwritten.
\<close>

theorem sync_completes_and_never_overwrites:
  assumes "manifests w mp = Some M"
    and "\<exists>n \<in> set M. \<not> is_file w (join D n)"
    and "manifest_check_download P w D mp u h = (Inr (), w')"
  shows "(\<forall>n \<in> set M. is_file w' (join D n)) \<and>
         (\<forall>k b. files w k = Some b \<longrightarrow> files w' k = Some b)"
proof -
  let ?w1 = "w\<lparr>requests := requests w @ [u]\<rparr>"
  let ?need = "missing_entries w D M"
  from assms(2) have ne: "?need \<noteq> []"
    by (simp add: missing_entries_eq_Nil)
  from manifest_check_download_success [OF assms(1) ne assms(3)]
  obtain a where ex: "extract_entries P ?w1 a D ?need = (Inr (), w')" by blast
  note fr = extract_entries_frame [OF ex]
  have written: "\<forall>n \<in> set ?need. is_file w' (join D n)"
    using ex by (rule extract_entries_written)
  have cw: "cwd w' = cwd w" using fr by simp
  have mono: "dom (files w) \<subseteq> dom (files w')" using fr by simp
  have all: "\<forall>n \<in> set M. is_file w' (join D n)"
  proof
    fix n assume n: "n \<in> set M"
    show "is_file w' (join D n)"
    proof (cases "is_file w (join D n)")
      case True
      with mono cw show ?thesis by (auto simp: is_file_def)
    next
      case False
      with n have "n \<in> set ?need" by (simp add: missing_entries_def)
      with written show ?thesis by blast
    qed
  qed
  have keep: "\<forall>k b. files w k = Some b \<longrightarrow> files w' k = Some b"
  proof (intro allI impI)
    fix k b assume k: "files w k = Some b"
    have "k \<notin> (\<lambda>n. abspath (cwd ?w1) (join D n)) ` set ?need"
      using k by (auto simp: missing_entries_def is_file_def)
    with fr have "files w' k = files ?w1 k" by blast
    with k show "files w' k = Some b" by simp
  qed
  from all keep show ?thesis by blast
qed

theorem sync_completes_and_never_overwrites_witness:
  "manifests partial_world ''/m/root.txt''
     = Some [''fsaverage/mri/T1.mgz'', ''fsaverage/surf/lh.white''] \<and>
   \<not> is_file partial_world (join ''/d'' ''fsaverage/surf/lh.white'') \<and>
   manifest_check_download demo_prims partial_world ''/d'' ''/m/root.txt''
     ''https://osf.io/3bxqt/download?revision=2'' ''5133fe92b7b8f03ae19219d5f46e4177''
     = (Inr (), synced_world) \<and>
   is_file synced_world (join ''/d'' ''fsaverage/mri/T1.mgz'') \<and>
   is_file synced_world (join ''/d'' ''fsaverage/surf/lh.white'') \<and>
   files partial_world ''/d/fsaverage/mri/T1.mgz'' = Some ''OLD'' \<and>
   files synced_world ''/d/fsaverage/mri/T1.mgz'' = Some ''OLD''"
proof -
  have m: "manifests partial_world ''/m/root.txt''
             = Some [''fsaverage/mri/T1.mgz'', ''fsaverage/surf/lh.white'']"
    by (simp add: partial_world_def)
  have n: "\<not> is_file partial_world (join ''/d'' ''fsaverage/surf/lh.white'')"
    by (simp add: is_file_def partial_world_def path_defs)
  then have e: "\<exists>n \<in> set [''fsaverage/mri/T1.mgz'', ''fsaverage/surf/lh.white''].
                  \<not> is_file partial_world (join ''/d'' n)"
    by simp
  have r: "manifest_check_download demo_prims partial_world ''/d'' ''/m/root.txt''
             ''https://osf.io/3bxqt/download?revision=2'' ''5133fe92b7b8f03ae19219d5f46e4177''
           = (Inr (), synced_world)"
    by (simp add: manifest_check_download_def missing_entries_def is_file_def download_def
        write_file_def makedirs_def demo_prims_def partial_world_def synced_world_def
        corrupt_world_def path_defs Let_def insert_commute)
  have old: "files partial_world ''/d/fsaverage/mri/T1.mgz'' = Some ''OLD''"
    by (simp add: partial_world_def)
  show ?thesis
    using sync_completes_and_never_overwrites [OF m e r] m n r old by simp
qed

text \<open>
  C3. An entry is missing, so the archive is downloaded, and its bytes do not hash to
  the expected value. The synchronizer then raises the verification failure; files and
  directories are what they were, the download is the only trace of the call.
\<close>

theorem hash_mismatch_extracts_nothing:
  assumes "manifests w mp = Some M"
    and "\<exists>n \<in> set M. \<not> is_file w (join D n)"
    and "remote w u = Some a"
    and "content_hash P a \<noteq> h"
  shows "manifest_check_download P w D mp u h =
           (Inl (VerificationFailure h (content_hash P a)), w\<lparr>requests := requests w @ [u]\<rparr>) \<and>
         files (snd (manifest_check_download P w D mp u h)) = files w \<and>
         dirs (snd (manifest_check_download P w D mp u h)) = dirs w"
proof -
  from assms(2) have "missing_entries w D M \<noteq> []"
    by (simp add: missing_entries_eq_Nil)
  with assms(1,3,4) show ?thesis
    by (simp add: manifest_check_download_def download_def Let_def)
qed

theorem hash_mismatch_extracts_nothing_witness:
  "manifests corrupt_world ''/m/root.txt''
     = Some [''fsaverage/mri/T1.mgz'', ''fsaverage/surf/lh.white''] \<and>
   \<not> is_file corrupt_world (join ''/d'' ''fsaverage/surf/lh.white'') \<and>
   remote corrupt_world ''https://osf.io/3bxqt/download?revision=2'' = Some ''JUNK'' \<and>
   content_hash demo_prims ''JUNK'' \<noteq> ''5133fe92b7b8f03ae19219d5f46e4177'' \<and>
   manifest_check_download demo_prims corrupt_world ''/d'' ''/m/root.txt''
     ''https://osf.io/3bxqt/download?revision=2'' ''5133fe92b7b8f03ae19219d5f46e4177''
     = (Inl (VerificationFailure ''5133fe92b7b8f03ae19219d5f46e4177'' ''0''),
        corrupt_world\<lparr>requests := [''https://osf.io/3bxqt/download?revision=2'']\<rparr>)"
proof -
  have m: "manifests corrupt_world ''/m/root.txt''
             = Some [''fsaverage/mri/T1.mgz'', ''fsaverage/surf/lh.white'']"
    by (simp add: corrupt_world_def partial_world_def)
  have n: "\<not> is_file corrupt_world (join ''/d'' ''fsaverage/surf/lh.white'')"
    by (simp add: is_file_def corrupt_world_def partial_world_def path_defs)
  then have e: "\<exists>n \<in> set [''fsaverage/mri/T1.mgz'', ''fsaverage/surf/lh.white''].
                  \<not> is_file corrupt_world (join ''/d'' n)"
    by simp
  have a: "remote corrupt_world ''https://osf.io/3bxqt/download?revision=2'' = Some ''JUNK''"
    by (simp add: corrupt_world_def)
  have h: "content_hash demo_prims ''JUNK'' \<noteq> ''5133fe92b7b8f03ae19219d5f46e4177''"
    by (simp add: demo_prims_def)
  have q: "requests corrupt_world = []" and c: "content_hash demo_prims ''JUNK'' = ''0''"
    by (simp_all add: corrupt_world_def partial_world_def demo_prims_def)
  show ?thesis
    using hash_mismatch_extracts_nothing [OF m e a h] m n a h q c by simp
qed

text \<open>
  C4. When every entry of the manifest is a file under the destination, the
  synchronizer returns with the world unchanged: in particular no request is made.
\<close>

theorem complete_destination_no_network:
  assumes "manifests w mp = Some M"
    and "\<forall>n \<in> set M. is_file w (join D n)"
  shows "manifest_check_download P w D mp u h = (Inr (), w) \<and>
         requests (snd (manifest_check_download P w D mp u h)) = requests w"
proof -
  from assms(2) have "missing_entries w D M = []"
    by (simp add: missing_entries_eq_Nil)
  with assms(1) show ?thesis
    by (simp add: manifest_check_download_def Let_def)
qed

theorem complete_destination_no_network_witness:
  "manifests synced_world ''/m/root.txt''
     = Some [''fsaverage/mri/T1.mgz'', ''fsaverage/surf/lh.white''] \<and>
   is_file synced_world (join ''/d'' ''fsaverage/mri/T1.mgz'') \<and>
   is_file synced_world (join ''/d'' ''fsaverage/surf/lh.white'') \<and>
   manifest_check_download demo_prims synced_world ''/d'' ''/m/root.txt''
     ''https://osf.io/3bxqt/download?revision=2'' ''5133fe92b7b8f03ae19219d5f46e4177''
     = (Inr (), synced_world)"
proof -
  have m: "manifests synced_world ''/m/root.txt''
             = Some [''fsaverage/mri/T1.mgz'', ''fsaverage/surf/lh.white'']"
    by (simp add: synced_world_def partial_world_def)
  have f: "is_file synced_world (join ''/d'' ''fsaverage/mri/T1.mgz'')"
          "is_file synced_world (join ''/d'' ''fsaverage/surf/lh.white'')"
    by (simp_all add: is_file_def synced_world_def partial_world_def path_defs)
  then have a: "\<forall>n \<in> set [''fsaverage/mri/T1.mgz'', ''fsaverage/surf/lh.white''].
                  is_file synced_world (join ''/d'' n)"
    by simp
  show ?thesis
    using complete_destination_no_network [OF m a] m f by simp
qed

text \<open>
  C6. A second run of the synchronizer, on the world that a first successful run left,
  returns that world unchanged: no request is made and no file changes.
\<close>

theorem sync_twice_idempotent:
  assumes "manifest_check_download P w D mp u h = (Inr (), w1)"
  shows "manifest_check_download P w1 D mp u h = (Inr (), w1)"
proof -
  from assms obtain M where M: "manifests w mp = Some M"
    by (auto simp: manifest_check_download_def split: option.splits)
  have "manifests w1 = manifests w \<and> (\<forall>n \<in> set M. is_file w1 (join D n))"
  proof (cases "missing_entries w D M = []")
    case True
    with assms M have "w1 = w" by (simp add: manifest_check_download_def Let_def)
    with True show ?thesis by (simp add: missing_entries_eq_Nil)
  next
    case False
    let ?w0 = "w\<lparr>requests := requests w @ [u]\<rparr>"
    from manifest_check_download_success [OF M False assms]
    obtain a where ex: "extract_entries P ?w0 a D (missing_entries w D M) = (Inr (), w1)"
      by blast
    note fr = extract_entries_frame [OF ex]
    have written: "\<forall>n \<in> set (missing_entries w D M). is_file w1 (join D n)"
      using ex by (rule extract_entries_written)
    have "\<forall>n \<in> set M. is_file w1 (join D n)"
    proof
      fix n assume n: "n \<in> set M"
      show "is_file w1 (join D n)"
      proof (cases "is_file w (join D n)")
        case True
        with fr show ?thesis by (auto simp: is_file_def)
      next
        case False
        with n have "n \<in> set (missing_entries w D M)" by (simp add: missing_entries_def)
        with written show ?thesis by blast
      qed
    qed
    with fr show ?thesis by simp
  qed
  then have "manifests w1 mp = Some M" and "missing_entries w1 D M = []"
    using M by (simp_all add: missing_entries_eq_Nil)
  then show ?thesis
    by (simp add: manifest_check_download_def Let_def)
qed

theorem sync_twice_idempotent_witness:
  "manifest_check_download demo_prims partial_world ''/d'' ''/m/root.txt''
     ''https://osf.io/3bxqt/download?revision=2'' ''5133fe92b7b8f03ae19219d5f46e4177''
     = (Inr (), synced_world) \<and>
   manifest_check_download demo_prims synced_world ''/d'' ''/m/root.txt''
     ''https://osf.io/3bxqt/download?revision=2'' ''5133fe92b7b8f03ae19219d5f46e4177''
     = (Inr (), synced_world) \<and>
   requests synced_world = [''https://osf.io/3bxqt/download?revision=2'']"
proof -
  have r: "manifest_check_download demo_prims partial_world ''/d'' ''/m/root.txt''
             ''https://osf.io/3bxqt/download?revision=2'' ''5133fe92b7b8f03ae19219d5f46e4177''
           = (Inr (), synced_world)"
    by (simp add: manifest_check_download_def missing_entries_def is_file_def download_def
        write_file_def makedirs_def demo_prims_def partial_world_def synced_world_def
        corrupt_world_def path_defs Let_def insert_commute)
  have q: "requests synced_world = [''https://osf.io/3bxqt/download?revision=2'']"
    by (simp add: synced_world_def)
  show ?thesis
    using sync_twice_idempotent [OF r] r q by simp
qed

section \<open>Normalised paths\<close>

lemma split_sep_not_Nil: "split_sep p \<noteq> []"
  by (induction p) (auto split: list.splits)

lemma split_sep_no_sep: "c \<in> set (split_sep p) \<Longrightarrow> sep \<notin> set c"
  by (induction p arbitrary: c) (auto split: list.splits if_splits)

lemma split_sep_plain: "sep \<notin> set x \<Longrightarrow> split_sep x = [x]"
  by (induction x) auto

lemma split_sep_component: "sep \<notin> set x \<Longrightarrow> split_sep (x @ sep # ys) = x # split_sep ys"
  by (induction x) auto

lemma split_sep_replicate: "split_sep (replicate n sep @ s) = replicate n [] @ split_sep s"
  by (induction n) auto

lemma split_sep_slashes: "split_sep (replicate n sep) = replicate (Suc n) []"
  by (induction n) auto

lemma split_sep_sep_join:
  "comps \<noteq> [] \<Longrightarrow> \<forall>c \<in> set comps. sep \<notin> set c \<Longrightarrow> split_sep (sep_join comps) = comps"
  by (induction comps rule: sep_join.induct) (auto simp: split_sep_plain split_sep_component)

lemma sep_join_last:
  "comps \<noteq> [] \<Longrightarrow> \<forall>c \<in> set comps. c \<noteq> [] \<Longrightarrow>
     sep_join comps \<noteq> [] \<and> last (sep_join comps) = last (last comps)"
  by (induction comps rule: sep_join.induct) auto

lemma sep_join_hd:
  "comps \<noteq> [] \<Longrightarrow> \<forall>c \<in> set comps. c \<noteq> [] \<Longrightarrow> hd (sep_join comps) = hd (hd comps)"
  by (induction comps rule: sep_join.induct) auto

lemma norm_comps_subset:
  "set (norm_comps n acc xs) \<subseteq> set acc \<union> {x \<in> set xs. x \<noteq> []}"
proof (induction xs arbitrary: acc)
  case Nil
  then show ?case by simp
next
  case (Cons x xs)
  have b: "set (butlast acc) \<subseteq> set acc"
    by (auto dest: in_set_butlastD)
  show ?case
    using Cons.IH [of acc] Cons.IH [of "acc @ [x]"] Cons.IH [of "butlast acc"] b
    by auto
qed

lemma norm_comps_good:
  "c \<in> set (norm_comps n [] (split_sep p)) \<Longrightarrow> c \<noteq> [] \<and> sep \<notin> set c"
  using norm_comps_subset [of n "[]" "split_sep p"] split_sep_no_sep [of c p] by auto

text \<open>The shape of a normalised path.\<close>

lemma normpath_form:
  obtains n comps where
    "normpath p = (if n = 0 \<and> comps = [] then ''.'' else replicate n sep @ sep_join comps)"
    "n \<le> 2" "\<forall>c \<in> set comps. c \<noteq> [] \<and> sep \<notin> set c" "isabs p \<Longrightarrow> 0 < n"
proof (cases "p = []")
  case True
  show ?thesis
    by (rule that [of 0 "[]"]) (simp_all add: True normpath_def isabs_def)
next
  case False
  let ?n = "initial_slashes p"
  let ?comps = "norm_comps ?n [] (split_sep p)"
  have good: "\<forall>c \<in> set ?comps. c \<noteq> [] \<and> sep \<notin> set c"
    using norm_comps_good by blast
  have e: "replicate ?n sep @ sep_join ?comps = [] \<longleftrightarrow> ?n = 0 \<and> ?comps = []"
    using sep_join_last [of ?comps] good by (cases "?comps = []") auto
  show ?thesis
  proof (rule that [of ?n ?comps])
    show "normpath p = (if ?n = 0 \<and> ?comps = [] then ''.'' else replicate ?n sep @ sep_join ?comps)"
      using False e by (simp add: normpath_def Let_def)
    show "?n \<le> 2" by (simp add: initial_slashes_def)
    show "\<forall>c \<in> set ?comps. c \<noteq> [] \<and> sep \<notin> set c" by (rule good)
    show "isabs p \<Longrightarrow> 0 < ?n" by (simp add: initial_slashes_def)
  qed
qed

lemma isabs_normpath: "isabs p \<Longrightarrow> isabs (normpath p)"
proof -
  assume a: "isabs p"
  obtain n comps where
    f: "normpath p = (if n = 0 \<and> comps = [] then ''.'' else replicate n sep @ sep_join comps)"
    and n: "0 < n"
    using normpath_form [of p] a by metis
  from n obtain m where "n = Suc m" by (cases n) auto
  with f show ?thesis by (simp add: isabs_def)
qed

lemma isabs_join: "isabs a \<Longrightarrow> isabs (join a b)"
  by (cases a) (auto simp: join_def isabs_def)

lemma isabs_abspath: "isabs d \<Longrightarrow> isabs (abspath d p)"
  by (simp add: abspath_def isabs_normpath isabs_join)


lemma initial_slashes_form:
  assumes "n \<le> 2" and "\<forall>c \<in> set comps. c \<noteq> [] \<and> sep \<notin> set c" and "\<not> (n = 0 \<and> comps = [])"
  shows "initial_slashes (replicate n sep @ sep_join comps) = n"
proof -
  have h: "comps \<noteq> [] \<Longrightarrow> sep_join comps \<noteq> [] \<and> hd (sep_join comps) \<noteq> sep"
  proof -
    assume ne: "comps \<noteq> []"
    then have "hd comps \<in> set comps" by simp
    with assms(2) have "hd comps \<noteq> []" and "sep \<notin> set (hd comps)" by auto
    then have "hd (hd comps) \<noteq> sep" by (cases "hd comps") auto
    with ne assms(2) show ?thesis
      using sep_join_hd [of comps] sep_join_last [of comps] by auto
  qed
  consider "n = 0" | "n = 1" | "n = 2" using assms(1) by linarith
  then show ?thesis
  proof cases
    case 1
    with assms(3) have "comps \<noteq> []" by simp
    with h 1 show ?thesis
      by (cases "sep_join comps") (auto simp: initial_slashes_def isabs_def)
  next
    case 2
    show ?thesis
    proof (cases "comps = []")
      case True
      with 2 show ?thesis by (simp add: initial_slashes_def isabs_def)
    next
      case False
      with h 2 show ?thesis
        by (cases "sep_join comps") (auto simp: initial_slashes_def isabs_def)
    qed
  next
    case 3
    show ?thesis
    proof (cases "comps = []")
      case True
      with 3 show ?thesis by (simp add: initial_slashes_def isabs_def numeral_2_eq_2)
    next
      case False
      with h 3 show ?thesis
        by (cases "sep_join comps") (auto simp: initial_slashes_def isabs_def numeral_2_eq_2)
    qed
  qed
qed

lemma components_form:
  assumes "\<forall>c \<in> set comps. c \<noteq> [] \<and> sep \<notin> set c"
  shows "filter (\<lambda>c. c \<noteq> []) (split_sep (replicate n sep @ sep_join comps)) = comps"
proof (cases "comps = []")
  case True
  then show ?thesis by (simp add: split_sep_slashes)
next
  case False
  with assms have "split_sep (sep_join comps) = comps"
    by (simp add: split_sep_sep_join)
  moreover have "filter (\<lambda>c. c \<noteq> []) comps = comps"
    using assms by (simp add: filter_id_conv)
  ultimately show ?thesis by (simp add: split_sep_replicate)
qed

text \<open>A normalised path is the last member of its own lineage.\<close>

lemma lineage_self: "normpath p \<in> set (lineage (normpath p))"
proof -
  obtain n comps where
    f: "normpath p = (if n = 0 \<and> comps = [] then ''.'' else replicate n sep @ sep_join comps)"
    and n: "n \<le> 2" and good: "\<forall>c \<in> set comps. c \<noteq> [] \<and> sep \<notin> set c"
    by (rule normpath_form)
  show ?thesis
  proof (cases "n = 0 \<and> comps = []")
    case True
    with f have "normpath p = ''.''" by simp
    then show ?thesis
      by (simp add: lineage_def initial_slashes_def isabs_def sep_def prefixes_snoc [of "[]", simplified])
  next
    case False
    let ?k = "replicate n sep @ sep_join comps"
    from False f have k: "normpath p = ?k" by simp
    have i: "initial_slashes ?k = n"
      using n good False by (rule initial_slashes_form)
    have c: "filter (\<lambda>c. c \<noteq> []) (split_sep ?k) = comps"
      using good by (rule components_form)
    have ne: "?k \<noteq> []"
      using False good sep_join_last [of comps] by (cases "comps = []") auto
    have "comps \<in> set (prefixes comps)" by simp
    then have "?k \<in> set (lineage ?k)"
      unfolding lineage_def i c using ne by auto
    with k show ?thesis by simp
  qed
qed

text \<open>A normalised path ends in a separator only when it is the root.\<close>

lemma normpath_end:
  "normpath p \<noteq> [] \<and> (last (normpath p) \<noteq> sep \<or> normpath p = replicate (length (normpath p)) sep)"
proof -
  obtain n comps where
    f: "normpath p = (if n = 0 \<and> comps = [] then ''.'' else replicate n sep @ sep_join comps)"
    and good: "\<forall>c \<in> set comps. c \<noteq> [] \<and> sep \<notin> set c"
    by (rule normpath_form)
  show ?thesis
  proof (cases "comps = []")
    case True
    with f show ?thesis by (auto simp: sep_def)
  next
    case False
    then have "last comps \<in> set comps" by simp
    with good have "last comps \<noteq> []" and "sep \<notin> set (last comps)" by auto
    then have "last (last comps) \<noteq> sep"
      using last_in_set by metis
    with False good f show ?thesis
      using sep_join_last [of comps] by auto
  qed
qed

lemma dirname_join:
  assumes "a \<noteq> []" and "last a \<noteq> sep \<or> a = replicate (length a) sep"
    and "b \<noteq> []" and "sep \<notin> set b"
  shows "dirname (join a b) = a"
proof -
  have nb: "\<not> isabs b"
    using assms(3,4) by (cases b) (auto simp: isabs_def)
  have dw: "dropWhile (\<lambda>c. c \<noteq> sep) (rev b) = []"
    using assms(4) by (auto simp: dropWhile_eq_Nil_conv)
  show ?thesis
  proof (cases "last a = sep")
    case True
    with assms(2) have all: "a = replicate (length a) sep" by simp
    from True assms(1) have h: "dropWhile (\<lambda>c. c \<noteq> sep) (rev a) = rev a"
      by (cases a rule: rev_cases) auto
    have "dropWhile (\<lambda>c. c \<noteq> sep) (rev (a @ b)) = rev a"
      using assms(4) h by (simp add: dropWhile_append3 dropWhile_append)
    with True nb assms(1) all show ?thesis
      by (simp add: dirname_def join_def Let_def)
  next
    case False
    have "dropWhile (\<lambda>c. c \<noteq> sep) (rev (a @ [sep] @ b)) = sep # rev a"
      using assms(4) by (simp add: dropWhile_append)
    moreover have "a @ [sep] \<noteq> replicate (Suc (length a)) sep"
    proof
      assume "a @ [sep] = replicate (Suc (length a)) sep"
      then have "set (a @ [sep]) = set (replicate (Suc (length a)) sep)" by simp
      then have "set a \<subseteq> {sep}" by auto
      moreover have "last a \<in> set a" using assms(1) by simp
      ultimately show False using False by auto
    qed
    moreover have "dropWhile (\<lambda>c. c = sep) (rev a) = rev a"
      using False assms(1) by (cases a rule: rev_cases) auto
    ultimately show ?thesis
      using False nb assms(1) by (simp add: dirname_def join_def Let_def)
  qed
qed

lemma abspath_self: "abspath d p \<in> set (lineage (abspath d p))"
  unfolding abspath_def by (rule lineage_self)

text \<open>The paths of the concrete worlds, evaluated once.\<close>

lemmas run_defs = fetch_fsaverage_def set_montage_coreg_path_def get_create_subjects_dir_def
  get_subjects_dir_def set_config_def get_path_def fsaverage_data_parts_def
  manifest_check_download_def missing_entries_def is_file_def is_dir_def download_def
  write_file_def makedirs_def demo_prims_def Let_def

lemma fresh_paths:
  "join ''/home/u/data'' ''fsaverage'' = ''/home/u/data/fsaverage''"
  "join ''/m'' ''root.txt'' = ''/m/root.txt''"
  "join ''/m'' ''bem.txt'' = ''/m/bem.txt''"
  "join ''/home/u/data'' ''fsaverage/mri/T1.mgz'' = ''/home/u/data/fsaverage/mri/T1.mgz''"
  "join ''/home/u/data'' ''fsaverage/surf/lh.white'' = ''/home/u/data/fsaverage/surf/lh.white''"
  "join ''/home/u/data/fsaverage'' ''bem/fsaverage-head.fif'' = ''/home/u/data/fsaverage/bem/fsaverage-head.fif''"
  "join ''/home/u/mne_data'' ''MNE-fsaverage-data'' = ''/home/u/mne_data/MNE-fsaverage-data''"
  "abspath ''/home/u'' ''data'' = ''/home/u/data''"
  "abspath ''/home/u'' ''/home/u/data/fsaverage'' = ''/home/u/data/fsaverage''"
  "abspath ''/home/u'' ''/home/u/data/fsaverage/mri/T1.mgz'' = ''/home/u/data/fsaverage/mri/T1.mgz''"
  "abspath ''/home/u'' ''/home/u/data/fsaverage/surf/lh.white'' = ''/home/u/data/fsaverage/surf/lh.white''"
  "abspath ''/home/u'' ''/home/u/data/fsaverage/bem/fsaverage-head.fif'' = ''/home/u/data/fsaverage/bem/fsaverage-head.fif''"
  "abspath ''/home/u'' ''/home/u/data/fsaverage/mri'' = ''/home/u/data/fsaverage/mri''"
  "abspath ''/home/u'' ''/home/u/data/fsaverage/surf'' = ''/home/u/data/fsaverage/surf''"
  "abspath ''/home/u'' ''/home/u/data/fsaverage/bem'' = ''/home/u/data/fsaverage/bem''"
  "abspath ''/home/u'' ''/home/u/mne_data/MNE-fsaverage-data'' = ''/home/u/mne_data/MNE-fsaverage-data''"
  "dirname ''/home/u/data/fsaverage/mri/T1.mgz'' = ''/home/u/data/fsaverage/mri''"
  "dirname ''/home/u/data/fsaverage/surf/lh.white'' = ''/home/u/data/fsaverage/surf''"
  "dirname ''/home/u/data/fsaverage/bem/fsaverage-head.fif'' = ''/home/u/data/fsaverage/bem''"
  "dirname ''/home/u/data/fsaverage'' = ''/home/u/data''"
  "lineage ''/home/u/data/fsaverage'' = [''/'', ''/home'', ''/home/u'', ''/home/u/data'', ''/home/u/data/fsaverage'']"
  "lineage ''/home/u/data/fsaverage/mri'' = [''/'', ''/home'', ''/home/u'', ''/home/u/data'', ''/home/u/data/fsaverage'', ''/home/u/data/fsaverage/mri'']"
  "lineage ''/home/u/data/fsaverage/surf'' = [''/'', ''/home'', ''/home/u'', ''/home/u/data'', ''/home/u/data/fsaverage'', ''/home/u/data/fsaverage/surf'']"
  "lineage ''/home/u/data/fsaverage/bem'' = [''/'', ''/home'', ''/home/u'', ''/home/u/data'', ''/home/u/data/fsaverage'', ''/home/u/data/fsaverage/bem'']"
  "lineage ''/home/u/mne_data/MNE-fsaverage-data'' = [''/'', ''/home'', ''/home/u'', ''/home/u/mne_data'', ''/home/u/mne_data/MNE-fsaverage-data'']"
  by code_simp+

lemma corrupt_paths:
  "join ''/d'' ''fsaverage'' = ''/d/fsaverage''"
  "join ''/d'' ''fsaverage/mri/T1.mgz'' = ''/d/fsaverage/mri/T1.mgz''"
  "join ''/d'' ''fsaverage/surf/lh.white'' = ''/d/fsaverage/surf/lh.white''"
  "abspath ''/home/u'' ''/d'' = ''/d''"
  "abspath ''/home/u'' ''/d/fsaverage'' = ''/d/fsaverage''"
  "abspath ''/home/u'' ''/d/fsaverage/mri/T1.mgz'' = ''/d/fsaverage/mri/T1.mgz''"
  "abspath ''/home/u'' ''/d/fsaverage/surf/lh.white'' = ''/d/fsaverage/surf/lh.white''"
  "lineage ''/d/fsaverage'' = [''/'', ''/d'', ''/d/fsaverage'']"
  by code_simp+

section \<open>Directory creation by the resolver\<close>

text \<open>
  C7. No subjects directory is given and none is persisted. The resolver then takes
  the base data directory of the environment joined with \<^verbatim>\<open>MNE-fsaverage-data\<close>, and
  after the call that directory and all its parents exist. Creating a directory fails
  only when a regular file is in the way (a file-system failure, which is propagated),
  so the statement is for a path that no regular file blocks.
\<close>

theorem default_subjects_dir_created:
  assumes "config w ''SUBJECTS_DIR'' = None"
    and "\<forall>a \<in> set (lineage (abspath (cwd w) (join (get_path w ''MNE_DATA'') ''MNE-fsaverage-data''))).
           files w a = None"
  shows "\<exists>w'. get_create_subjects_dir w None
                 = (Inr (join (get_path w ''MNE_DATA'') ''MNE-fsaverage-data''), w') \<and>
              is_dir w' (join (get_path w ''MNE_DATA'') ''MNE-fsaverage-data'') \<and>
              set (lineage (abspath (cwd w) (join (get_path w ''MNE_DATA'') ''MNE-fsaverage-data'')))
                \<subseteq> dirs w' \<and>
              dirs w \<subseteq> dirs w' \<and> files w' = files w \<and> config w' = config w"
proof -
  let ?d = "join (get_path w ''MNE_DATA'') ''MNE-fsaverage-data''"
  let ?k = "abspath (cwd w) ?d"
  let ?w' = "w\<lparr>dirs := dirs w \<union> set (lineage ?k)\<rparr>"
  from assms(2) have m: "makedirs w ?d = (Inr (), ?w')"
    by (simp add: makedirs_def Let_def)
  with assms(1) have "get_create_subjects_dir w None = (Inr ?d, ?w')"
    by (simp add: get_create_subjects_dir_def get_subjects_dir_def Let_def)
  moreover have "is_dir ?w' ?d"
    using abspath_self [of "cwd w" ?d] by (simp add: is_dir_def)
  ultimately show ?thesis by auto
qed

theorem default_subjects_dir_created_witness:
  "config fresh_world ''SUBJECTS_DIR'' = None \<and>
   get_path fresh_world ''MNE_DATA'' = ''/home/u/mne_data'' \<and>
   get_create_subjects_dir fresh_world None
     = (Inr ''/home/u/mne_data/MNE-fsaverage-data'',
        fresh_world\<lparr>dirs := {''/'', ''/home'', ''/home/u'', ''/home/u/mne_data'',
                               ''/home/u/mne_data/MNE-fsaverage-data''}\<rparr>) \<and>
   is_dir (snd (get_create_subjects_dir fresh_world None)) ''/home/u/mne_data/MNE-fsaverage-data''"
proof -
  have c: "config fresh_world ''SUBJECTS_DIR'' = None"
    by (simp add: fresh_world_def)
  have f: "\<forall>a \<in> set (lineage (abspath (cwd fresh_world)
                  (join (get_path fresh_world ''MNE_DATA'') ''MNE-fsaverage-data''))).
             files fresh_world a = None"
    by (simp add: fresh_world_def)
  have p: "get_path fresh_world ''MNE_DATA'' = ''/home/u/mne_data''"
    by (simp add: get_path_def fresh_world_def)
  have g: "get_create_subjects_dir fresh_world None
     = (Inr ''/home/u/mne_data/MNE-fsaverage-data'',
        fresh_world\<lparr>dirs := {''/'', ''/home'', ''/home/u'', ''/home/u/mne_data'',
                               ''/home/u/mne_data/MNE-fsaverage-data''}\<rparr>)"
    by (simp add: get_create_subjects_dir_def get_subjects_dir_def get_path_def makedirs_def
          Let_def fresh_world_def fresh_paths insert_commute)
  show ?thesis
    using default_subjects_dir_created [OF c f] c p g by (simp add: fresh_paths)
qed

section \<open>Properties of \<^verbatim>\<open>fetch_fsaverage\<close>\<close>

lemma get_create_subjects_dir_frame:
  "get_create_subjects_dir w subjects_dir = (r, w') \<Longrightarrow>
     config w' = config w \<and> cwd w' = cwd w \<and> files w' = files w \<and>
     requests w' = requests w \<and> dirs w \<subseteq> dirs w'"
  by (auto simp: get_create_subjects_dir_def Let_def split: option.splits prod.splits sum.splits
           dest!: makedirs_cases)

lemma set_montage_coreg_path_success:
  assumes "set_montage_coreg_path w subjects_dir = (Inr s, w1)"
  shows "\<exists>w0. get_create_subjects_dir w subjects_dir = (Inr s, w0) \<and>
              w1 = set_config w0 ''SUBJECTS_DIR'' s"
  using assms
  by (auto simp: set_montage_coreg_path_def Let_def split: prod.splits sum.splits if_splits)

lemma set_montage_coreg_path_persists:
  assumes "set_montage_coreg_path w subjects_dir = (Inr s, w1)"
  shows "config w1 ''SUBJECTS_DIR'' = Some s \<and> cwd w1 = cwd w \<and> requests w1 = requests w \<and>
         files w1 = files w"
proof -
  from set_montage_coreg_path_success [OF assms] obtain w0 where
    g: "get_create_subjects_dir w subjects_dir = (Inr s, w0)"
    and w1: "w1 = set_config w0 ''SUBJECTS_DIR'' s" by blast
  from get_create_subjects_dir_frame [OF g] w1 show ?thesis
    by (simp add: set_config_def)
qed

lemma manifest_check_download_frame:
  assumes "manifest_check_download P w D mp u h = (r, w')"
  shows "config w' = config w \<and> cwd w' = cwd w \<and> manifests w' = manifests w \<and>
         dirs w \<subseteq> dirs w' \<and> dom (files w) \<subseteq> dom (files w')"
proof (cases "manifests w mp")
  case None
  with assms show ?thesis by (simp add: manifest_check_download_def)
next
  case (Some M)
  show ?thesis
  proof (cases "missing_entries w D M = []")
    case True
    with assms Some show ?thesis by (simp add: manifest_check_download_def)
  next
    case False
    let ?w1 = "w\<lparr>requests := requests w @ [u]\<rparr>"
    show ?thesis
    proof (cases "remote w u")
      case None
      with assms Some False show ?thesis
        by (auto simp: manifest_check_download_def download_def Let_def)
    next
      case a: (Some a)
      show ?thesis
      proof (cases "content_hash P a = h")
        case True
        with assms Some False a
        have "extract_entries P ?w1 a D (missing_entries w D M) = (r, w')"
          by (simp add: manifest_check_download_def download_def Let_def)
        from extract_entries_frame [OF this] show ?thesis by simp
      next
        case False
        with assms Some \<open>missing_entries w D M \<noteq> []\<close> a show ?thesis
          by (auto simp: manifest_check_download_def download_def Let_def)
      qed
    qed
  qed
qed

lemma check_download_parts_frame:
  "check_download_parts P w parts = (r, w') \<Longrightarrow>
     config w' = config w \<and> cwd w' = cwd w \<and> manifests w' = manifests w \<and>
     dirs w \<subseteq> dirs w' \<and> dom (files w) \<subseteq> dom (files w')"
proof (induction parts arbitrary: w)
  case Nil
  then show ?case by simp
next
  case (Cons part parts)
  obtain fname data where part: "part = (fname, data)" by (cases part)
  obtain r1 w1 where
    m: "manifest_check_download P w (destination data) (manifest data) (url data) (hash' data) = (r1, w1)"
    by (cases "manifest_check_download P w (destination data) (manifest data) (url data) (hash' data)")
  note f1 = manifest_check_download_frame [OF m]
  show ?case
  proof (cases r1)
    case (Inl e)
    with Cons.prems part m have "w' = w1" by simp
    with f1 show ?thesis by simp
  next
    case (Inr u)
    with Cons.prems part m have "check_download_parts P w1 parts = (r, w')" by simp
    note f2 = Cons.IH [OF this]
    have "dirs w \<subseteq> dirs w'" using f1 f2 by blast
    moreover have "dom (files w) \<subseteq> dom (files w')" using f1 f2 by blast
    ultimately show ?thesis using f1 f2 by simp
  qed
qed

text \<open>The steps of a call of \<^verbatim>\<open>fetch_fsaverage\<close> that returns.\<close>

lemma fetch_fsaverage_steps:
  assumes "fetch_fsaverage P md w subjects_dir = (Inr r, w')"
  shows "\<exists>s w1 w2 w3.
           set_montage_coreg_path w subjects_dir = (Inr s, w1) \<and>
           makedirs w1 (join (abspath (cwd w) s) ''fsaverage'') = (Inr (), w2) \<and>
           manifest_check_download P w2 (abspath (cwd w) s) (join md ''root.txt'')
             ''https://osf.io/3bxqt/download?revision=2'' ''5133fe92b7b8f03ae19219d5f46e4177''
             = (Inr (), w3) \<and>
           manifest_check_download P w3 (join (abspath (cwd w) s) ''fsaverage'') (join md ''bem.txt'')
             ''https://osf.io/7ve8g/download?revision=2'' ''608c438af6a15a19b66232323088b32d''
             = (Inr (), w') \<and>
           r = join (abspath (cwd w) s) ''fsaverage''"
proof -
  obtain r1 w1 where p: "set_montage_coreg_path w subjects_dir = (r1, w1)"
    by (cases "set_montage_coreg_path w subjects_dir")
  with assms obtain s where s: "r1 = Inr s"
    by (cases r1) (auto simp: fetch_fsaverage_def)
  from p s have c: "cwd w1 = cwd w"
    using set_montage_coreg_path_persists by blast
  let ?A = "abspath (cwd w) s"
  let ?fs = "join ?A ''fsaverage''"
  obtain r2 w2 where m: "makedirs w1 ?fs = (r2, w2)"
    by (cases "makedirs w1 ?fs")
  with assms p s c have r2: "r2 = Inr ()"
    by (cases r2) (auto simp: fetch_fsaverage_def Let_def)
  let ?root = "manifest_check_download P w2 ?A (join md ''root.txt'')
             ''https://osf.io/3bxqt/download?revision=2'' ''5133fe92b7b8f03ae19219d5f46e4177''"
  obtain r3 w3 where a: "?root = (r3, w3)" by (cases ?root)
  with assms p s c m r2 have r3: "r3 = Inr ()"
    by (cases r3) (auto simp: fetch_fsaverage_def Let_def fsaverage_data_parts_def)
  let ?bem = "manifest_check_download P w3 ?fs (join md ''bem.txt'')
             ''https://osf.io/7ve8g/download?revision=2'' ''608c438af6a15a19b66232323088b32d''"
  obtain r4 w4 where b: "?bem = (r4, w4)" by (cases ?bem)
  with assms p s c m r2 a r3 have r4: "r4 = Inr () \<and> w4 = w' \<and> r = ?fs"
    by (cases r4) (auto simp: fetch_fsaverage_def Let_def fsaverage_data_parts_def)
  from p s m r2 a r3 b r4 show ?thesis by blast
qed

text \<open>
  C5. A call of \<^verbatim>\<open>fetch_fsaverage\<close> that returns has gone through the path resolver,
  created the \<^verbatim>\<open>fsaverage\<close> directory under the absolute subjects directory, and run
  the synchronizer on the two entries of the table, in order: \<^verbatim>\<open>root.zip\<close> with the
  subjects directory as destination, then \<^verbatim>\<open>bem.zip\<close> with the \<^verbatim>\<open>fsaverage\<close>
  directory as destination. It returns the subjects directory joined with
  \<^verbatim>\<open>fsaverage\<close>, an absolute path (the working directory being absolute) of a
  directory that exists.
\<close>

theorem fetch_fsaverage_composition:
  assumes "fetch_fsaverage P md w subjects_dir = (Inr r, w')"
    and "isabs (cwd w)"
  shows "\<exists>s w1 w2 w3.
           set_montage_coreg_path w subjects_dir = (Inr s, w1) \<and>
           makedirs w1 (join (abspath (cwd w) s) ''fsaverage'') = (Inr (), w2) \<and>
           map fst (fsaverage_data_parts md (abspath (cwd w) s)) = [''root.zip'', ''bem.zip''] \<and>
           manifest_check_download P w2 (abspath (cwd w) s) (join md ''root.txt'')
             ''https://osf.io/3bxqt/download?revision=2'' ''5133fe92b7b8f03ae19219d5f46e4177''
             = (Inr (), w3) \<and>
           manifest_check_download P w3 (join (abspath (cwd w) s) ''fsaverage'') (join md ''bem.txt'')
             ''https://osf.io/7ve8g/download?revision=2'' ''608c438af6a15a19b66232323088b32d''
             = (Inr (), w') \<and>
           r = join (abspath (cwd w) s) ''fsaverage'' \<and> isabs r \<and> is_dir w' r"
proof -
  from fetch_fsaverage_steps [OF assms(1)] obtain s w1 w2 w3 where
    p: "set_montage_coreg_path w subjects_dir = (Inr s, w1)"
    and m: "makedirs w1 (join (abspath (cwd w) s) ''fsaverage'') = (Inr (), w2)"
    and a: "manifest_check_download P w2 (abspath (cwd w) s) (join md ''root.txt'')
             ''https://osf.io/3bxqt/download?revision=2'' ''5133fe92b7b8f03ae19219d5f46e4177''
             = (Inr (), w3)"
    and b: "manifest_check_download P w3 (join (abspath (cwd w) s) ''fsaverage'') (join md ''bem.txt'')
             ''https://osf.io/7ve8g/download?revision=2'' ''608c438af6a15a19b66232323088b32d''
             = (Inr (), w')"
    and r: "r = join (abspath (cwd w) s) ''fsaverage''"
    by blast
  have c1: "cwd w1 = cwd w"
    using set_montage_coreg_path_persists [OF p] by simp
  from makedirs_cases [OF m]
  have w2: "w2 = w1\<lparr>dirs := dirs w1 \<union> set (lineage (abspath (cwd w1) r))\<rparr>"
    using r by auto
  then have "abspath (cwd w) r \<in> dirs w2"
    using abspath_self [of "cwd w" r] c1 by simp
  moreover have "dirs w2 \<subseteq> dirs w'" and "cwd w' = cwd w"
    using manifest_check_download_frame [OF a] manifest_check_download_frame [OF b] w2 c1
    by auto
  ultimately have d: "is_dir w' r"
    by (auto simp: is_dir_def)
  have i: "isabs r"
    using assms(2) r by (simp add: isabs_join isabs_abspath)
  have t: "map fst (fsaverage_data_parts md (abspath (cwd w) s)) = [''root.zip'', ''bem.zip'']"
    by (simp add: fsaverage_data_parts_def)
  show ?thesis
    by (rule exI [of _ s], rule exI [of _ w1], rule exI [of _ w2], rule exI [of _ w3])
       (use p m a b r d i t in simp)
qed

theorem fetch_fsaverage_composition_witness:
  "fetch_fsaverage demo_prims ''/m'' fresh_world (Some ''data'')
     = (Inr ''/home/u/data/fsaverage'', fetched_world) \<and>
   isabs (cwd fresh_world) \<and>
   isabs ''/home/u/data/fsaverage'' \<and>
   is_dir fetched_world ''/home/u/data/fsaverage''"
proof -
  have f: "fetch_fsaverage demo_prims ''/m'' fresh_world (Some ''data'')
             = (Inr ''/home/u/data/fsaverage'', fetched_world)"
    by (simp add: run_defs fresh_paths fresh_world_def fetched_world_def insert_commute)
  have i: "isabs (cwd fresh_world)"
    by (simp add: isabs_def sep_def fresh_world_def)
  from fetch_fsaverage_composition [OF f i]
  have "isabs ''/home/u/data/fsaverage'' \<and> is_dir fetched_world ''/home/u/data/fsaverage''"
    by (elim exE conjE) simp
  with f i show ?thesis by simp
qed

text \<open>
  C9. Once the conflict check has passed and the \<^verbatim>\<open>fsaverage\<close> directory has been
  made, the configuration holds the subjects directory and that directory exists, and
  no request has been made yet; the rest of the call is the loop over the table started
  in that world. Whatever the loop does, and also when it raises, the world it leaves
  still has the configuration entry and the directory.
\<close>

theorem side_effects_precede_downloads:
  assumes "set_montage_coreg_path w subjects_dir = (Inr s, w1)"
    and "makedirs w1 (join (abspath (cwd w1) s) ''fsaverage'') = (Inr (), w2)"
  shows "config w2 ''SUBJECTS_DIR'' = Some s \<and>
         is_dir w2 (join (abspath (cwd w1) s) ''fsaverage'') \<and>
         requests w2 = requests w \<and>
         fetch_fsaverage P md w subjects_dir =
           (case check_download_parts P w2 (fsaverage_data_parts md (abspath (cwd w1) s)) of
              (Inl e, w3) \<Rightarrow> (Inl e, w3)
            | (Inr u, w3) \<Rightarrow> (Inr (join (abspath (cwd w1) s) ''fsaverage''), w3)) \<and>
         config (snd (fetch_fsaverage P md w subjects_dir)) ''SUBJECTS_DIR'' = Some s \<and>
         is_dir (snd (fetch_fsaverage P md w subjects_dir)) (join (abspath (cwd w1) s) ''fsaverage'')"
proof -
  let ?fs = "join (abspath (cwd w1) s) ''fsaverage''"
  let ?parts = "fsaverage_data_parts md (abspath (cwd w1) s)"
  note p = set_montage_coreg_path_persists [OF assms(1)]
  from makedirs_cases [OF assms(2)]
  have w2: "w2 = w1\<lparr>dirs := dirs w1 \<union> set (lineage (abspath (cwd w1) ?fs))\<rparr>"
    by auto
  have c2: "config w2 ''SUBJECTS_DIR'' = Some s" and q2: "requests w2 = requests w"
    using p w2 by simp_all
  have d2: "is_dir w2 ?fs"
    using abspath_self [of "cwd w1" ?fs] w2 by (simp add: is_dir_def)
  obtain r3 w3 where l: "check_download_parts P w2 ?parts = (r3, w3)"
    by (cases "check_download_parts P w2 ?parts")
  have f: "fetch_fsaverage P md w subjects_dir =
           (case check_download_parts P w2 ?parts of
              (Inl e, w3) \<Rightarrow> (Inl e, w3)
            | (Inr u, w3) \<Rightarrow> (Inr ?fs, w3))"
    using assms by (simp add: fetch_fsaverage_def Let_def)
  then have s3: "snd (fetch_fsaverage P md w subjects_dir) = w3"
    using l by (cases r3) simp_all
  note fr = check_download_parts_frame [OF l]
  have c3: "config w3 ''SUBJECTS_DIR'' = Some s"
    using fr c2 by simp
  have d3: "is_dir w3 ?fs"
    using fr d2 by (auto simp: is_dir_def)
  from c2 d2 q2 f s3 c3 d3 show ?thesis by simp
qed

theorem side_effects_precede_downloads_witness:
  "set_montage_coreg_path corrupt_world (Some ''/d'')
     = (Inr ''/d'', set_config corrupt_world ''SUBJECTS_DIR'' ''/d'') \<and>
   makedirs (set_config corrupt_world ''SUBJECTS_DIR'' ''/d'')
      (join (abspath (cwd (set_config corrupt_world ''SUBJECTS_DIR'' ''/d'')) ''/d'') ''fsaverage'')
     = (Inr (), set_config corrupt_world ''SUBJECTS_DIR'' ''/d'') \<and>
   fst (fetch_fsaverage demo_prims ''/m'' corrupt_world (Some ''/d''))
     = Inl (VerificationFailure ''5133fe92b7b8f03ae19219d5f46e4177'' ''0'') \<and>
   config (snd (fetch_fsaverage demo_prims ''/m'' corrupt_world (Some ''/d''))) ''SUBJECTS_DIR''
     = Some ''/d'' \<and>
   is_dir (snd (fetch_fsaverage demo_prims ''/m'' corrupt_world (Some ''/d''))) ''/d/fsaverage''"
proof -
  let ?w1 = "set_config corrupt_world ''SUBJECTS_DIR'' ''/d''"
  have p: "set_montage_coreg_path corrupt_world (Some ''/d'') = (Inr ''/d'', ?w1)"
    by (simp add: set_montage_coreg_path_def get_create_subjects_dir_def get_subjects_dir_def
          corrupt_world_def partial_world_def)
  have c: "cwd ?w1 = ''/home/u''"
    by (simp add: set_config_def corrupt_world_def partial_world_def)
  have m: "makedirs ?w1 (join (abspath (cwd ?w1) ''/d'') ''fsaverage'') = (Inr (), ?w1)"
    unfolding c
    by (simp add: makedirs_def set_config_def corrupt_world_def partial_world_def corrupt_paths
          Let_def insert_commute)
  have e: "fst (fetch_fsaverage demo_prims ''/m'' corrupt_world (Some ''/d''))
             = Inl (VerificationFailure ''5133fe92b7b8f03ae19219d5f46e4177'' ''0'')"
    by (simp add: run_defs fresh_paths corrupt_paths corrupt_world_def partial_world_def)
  have k: "config (snd (fetch_fsaverage demo_prims ''/m'' corrupt_world (Some ''/d''))) ''SUBJECTS_DIR''
             = Some ''/d'' \<and>
           is_dir (snd (fetch_fsaverage demo_prims ''/m'' corrupt_world (Some ''/d''))) ''/d/fsaverage''"
    using side_effects_precede_downloads [OF p m, of demo_prims "''/m''"]
    unfolding c corrupt_paths by (elim conjE) (intro conjI; assumption)
  from p m e k show ?thesis by (intro conjI) (elim conjE; assumption)+
qed

text \<open>
  C10. For a relative subjects directory given by the caller, a call that returns has
  persisted the string as given, and returns its absolute form joined with
  \<^verbatim>\<open>fsaverage\<close>: the parent directory of the returned path is the absolute form, which
  is not the persisted string.
\<close>

theorem config_keeps_relative_spelling:
  assumes "fetch_fsaverage P md w (Some sd) = (Inr r, w')"
    and "\<not> isabs sd"
    and "isabs (cwd w)"
  shows "config w' ''SUBJECTS_DIR'' = Some sd \<and>
         r = join (abspath (cwd w) sd) ''fsaverage'' \<and>
         dirname r = abspath (cwd w) sd \<and>
         sd \<noteq> dirname r"
proof -
  from fetch_fsaverage_steps [OF assms(1)] obtain s w1 w2 w3 where
    p: "set_montage_coreg_path w (Some sd) = (Inr s, w1)"
    and m: "makedirs w1 (join (abspath (cwd w) s) ''fsaverage'') = (Inr (), w2)"
    and a: "manifest_check_download P w2 (abspath (cwd w) s) (join md ''root.txt'')
             ''https://osf.io/3bxqt/download?revision=2'' ''5133fe92b7b8f03ae19219d5f46e4177''
             = (Inr (), w3)"
    and b: "manifest_check_download P w3 (join (abspath (cwd w) s) ''fsaverage'') (join md ''bem.txt'')
             ''https://osf.io/7ve8g/download?revision=2'' ''608c438af6a15a19b66232323088b32d''
             = (Inr (), w')"
    and r: "r = join (abspath (cwd w) s) ''fsaverage''"
    by blast
  from set_montage_coreg_path_success [OF p] have s: "s = sd"
    by (auto simp: get_create_subjects_dir_def get_subjects_dir_def)
  have "config w1 ''SUBJECTS_DIR'' = Some s"
    using set_montage_coreg_path_persists [OF p] by simp
  moreover have "config w2 = config w1"
    using makedirs_cases [OF m] by auto
  moreover have "config w3 = config w2" and "config w' = config w3"
    using manifest_check_download_frame [OF a] manifest_check_download_frame [OF b] by simp_all
  ultimately have c: "config w' ''SUBJECTS_DIR'' = Some sd"
    using s by simp
  let ?A = "abspath (cwd w) sd"
  have e: "?A \<noteq> [] \<and> (last ?A \<noteq> sep \<or> ?A = replicate (length ?A) sep)"
    unfolding abspath_def by (rule normpath_end)
  have d: "dirname (join ?A ''fsaverage'') = ?A"
    using e by (intro dirname_join) (simp_all add: sep_def)
  have "isabs ?A"
    using assms(3) by (rule isabs_abspath)
  with assms(2) have n: "sd \<noteq> ?A" by auto
  from c r s d n show ?thesis by simp
qed

theorem config_keeps_relative_spelling_witness:
  "fetch_fsaverage demo_prims ''/m'' fresh_world (Some ''data'')
     = (Inr ''/home/u/data/fsaverage'', fetched_world) \<and>
   \<not> isabs ''data'' \<and> isabs (cwd fresh_world) \<and>
   config fetched_world ''SUBJECTS_DIR'' = Some ''data'' \<and>
   dirname ''/home/u/data/fsaverage'' = ''/home/u/data'' \<and>
   ''data'' \<noteq> ''/home/u/data''"
proof -
  have f: "fetch_fsaverage demo_prims ''/m'' fresh_world (Some ''data'')
             = (Inr ''/home/u/data/fsaverage'', fetched_world)"
    by (simp add: run_defs fresh_paths fresh_world_def fetched_world_def insert_commute)
  have r: "\<not> isabs ''data''"
    by (simp add: isabs_def sep_def)
  have i: "isabs (cwd fresh_world)"
    by (simp add: isabs_def sep_def fresh_world_def)
  have a: "abspath (cwd fresh_world) ''data'' = ''/home/u/data''"
    by (simp add: fresh_paths fresh_world_def)
  show ?thesis
    using config_keeps_relative_spelling [OF f r i] f r i a by (simp add: fresh_paths)
qed

end
